theory Spec2Isabelle
  imports Main "HOL-Library.Sublist"
begin

section \<open>Strings\<close>

text \<open>
  A JavaScript string is modelled as a \<^typ>\<open>string\<close>, one \<^typ>\<open>char\<close> per code unit; the
  model covers the code units 0 to 255 (Latin-1), which is where the path separators, the
  line terminators, the white space and the replacement patterns of the program live.
\<close>

abbreviation LF :: char where "LF \<equiv> CHR 0x0A"
abbreviation CR :: char where "CR \<equiv> CHR 0x0D"
abbreviation SLASH :: char where "SLASH \<equiv> CHR ''/''"
abbreviation DOLLAR :: char where "DOLLAR \<equiv> CHR ''$''"

text \<open>\<^verbatim>\<open>s.startsWith(p)\<close>: the first \<open>p.length\<close> code units of \<open>s\<close> are \<open>p\<close>.\<close>

definition startsWith :: "string \<Rightarrow> string \<Rightarrow> bool" where
  "startsWith s p = (take (length p) s = p)"

text \<open>\<^verbatim>\<open>s.toLowerCase()\<close> on Latin-1: A-Z and the accented capitals move up by 32.\<close>

definition toLowerCase_char :: "char \<Rightarrow> char" where
  "toLowerCase_char c =
     (let n = (of_char c :: nat)
      in if (65 \<le> n \<and> n \<le> 90) \<or> (192 \<le> n \<and> n \<le> 214) \<or> (216 \<le> n \<and> n \<le> 222)
         then char_of (n + 32) else c)"

definition toLowerCase :: "string \<Rightarrow> string" where
  "toLowerCase s = map toLowerCase_char s"

text \<open>\<^verbatim>\<open>s.split(sep)\<close> for a one-character separator: never the empty list.\<close>

fun split_on :: "char \<Rightarrow> string \<Rightarrow> string list" where
  "split_on sep [] = [[]]"
| "split_on sep (c # s) =
     (if c = sep then [] # split_on sep s
      else (case split_on sep s of [] \<Rightarrow> [[c]] | l # ls \<Rightarrow> (c # l) # ls))"

text \<open>\<^verbatim>\<open>lines.join(sep)\<close> for a one-character separator.\<close>

fun join_with :: "char \<Rightarrow> string list \<Rightarrow> string" where
  "join_with sep [] = []"
| "join_with sep [l] = l"
| "join_with sep (l # m # ls) = l @ sep # join_with sep (m # ls)"

section \<open>The POSIX functions of \<^verbatim>\<open>node:path\<close>\<close>

text \<open>
  \<^verbatim>\<open>normalizeString(path, allowAboveRoot)\<close> of the runtime, on the segments between
  separators: empty segments and \<open>.\<close> are dropped; \<open>..\<close> removes the segment before it, and
  is kept only where the path may climb above its start. The accumulator holds the
  segments kept so far, last one first.
\<close>

fun normalizeSegments :: "bool \<Rightarrow> string list \<Rightarrow> string list \<Rightarrow> string list" where
  "normalizeSegments allowAboveRoot acc [] = rev acc"
| "normalizeSegments allowAboveRoot acc (seg # segs) =
     (if seg = [] \<or> seg = ''.'' then normalizeSegments allowAboveRoot acc segs
      else if seg = ''..'' then
        (case acc of
           [] \<Rightarrow> normalizeSegments allowAboveRoot (if allowAboveRoot then [''..''] else []) segs
         | a # acc' \<Rightarrow>
             if a = ''..''
             then normalizeSegments allowAboveRoot (if allowAboveRoot then ''..'' # acc else acc) segs
             else normalizeSegments allowAboveRoot acc' segs)
      else normalizeSegments allowAboveRoot (seg # acc) segs)"

definition normalizeString :: "string \<Rightarrow> bool \<Rightarrow> string" where
  "normalizeString p allowAboveRoot =
     join_with SLASH (normalizeSegments allowAboveRoot [] (split_on SLASH p))"

definition path_isAbsolute :: "string \<Rightarrow> bool" where
  "path_isAbsolute p = (case p of [] \<Rightarrow> False | c # _ \<Rightarrow> c = SLASH)"

definition path_normalize :: "string \<Rightarrow> string" where
  "path_normalize p =
     (if p = [] then ''.''
      else
        let isAbsolute = path_isAbsolute p;
            trailingSeparator = (last p = SLASH);
            res = normalizeString p (\<not> isAbsolute)
        in if res = [] then (if isAbsolute then ''/'' else if trailingSeparator then ''./'' else ''.'')
           else (if isAbsolute then ''/'' else []) @ res @ (if trailingSeparator then ''/'' else []))"

text \<open>
  \<^verbatim>\<open>path.resolve(...args)\<close>: the arguments are read from the right until an absolute one is
  met, then the working directory; empty arguments are skipped.
\<close>

fun resolve_loop :: "string list \<Rightarrow> string \<Rightarrow> string \<times> bool" where
  "resolve_loop [] resolvedPath = (resolvedPath, False)"
| "resolve_loop (p # ps) resolvedPath =
     (if p = [] then resolve_loop ps resolvedPath
      else if path_isAbsolute p then (p @ SLASH # resolvedPath, True)
      else resolve_loop ps (p @ SLASH # resolvedPath))"

definition path_resolve :: "string \<Rightarrow> string list \<Rightarrow> string" where
  "path_resolve cwd args =
     (case resolve_loop (rev args @ [cwd]) [] of
        (resolvedPath, resolvedAbsolute) \<Rightarrow>
          let res = normalizeString resolvedPath (\<not> resolvedAbsolute)
          in if resolvedAbsolute then SLASH # res
             else if res = [] then ''.'' else res)"

text \<open>\<^verbatim>\<open>path.join(...args)\<close>: the non-empty arguments, joined by the separator, normalized.\<close>

definition path_join :: "string list \<Rightarrow> string" where
  "path_join args =
     (let joined = join_with SLASH (filter (\<lambda>a. a \<noteq> []) args)
      in if joined = [] then ''.'' else path_normalize joined)"

text \<open>
  \<^verbatim>\<open>path.dirname(p)\<close>: scanning from the end and never looking at index 0, the trailing
  separators and then the last segment are skipped; \<open>end\<close> is the index of the separator
  found there.
\<close>

definition path_dirname :: "string \<Rightarrow> string" where
  "path_dirname p =
     (if p = [] then ''.''
      else
        let hasRoot = path_isAbsolute p;
            afterName = dropWhile (\<lambda>c. c \<noteq> SLASH) (dropWhile (\<lambda>c. c = SLASH) (rev (tl p)));
            end = length afterName
        in if afterName = [] then (if hasRoot then ''/'' else ''.'')
           else if hasRoot \<and> end = 1 then ''//''
           else take end p)"

section \<open>PathGuard: \<^verbatim>\<open>validatePath\<close>\<close>

text \<open>
  What the function reads from its surroundings: the home directory, the working
  directory, and the file system's \<^verbatim>\<open>realpath\<close>, which fails (\<open>None\<close>) on a path that
  cannot be resolved.
\<close>

record runtime =
  homedir :: string
  cwd :: string
  realpath :: "string \<Rightarrow> string option"

text \<open>
  One constructor for every error the program raises, with what its message carries:
  \<^item> \<open>PathOutsideAllowed\<close>: "Access denied - path outside allowed directories: ... not in ..."
  \<^item> \<open>SymlinkTargetOutside\<close>: "Access denied - symlink target outside allowed directories"
  \<^item> \<open>ParentOutsideAllowed\<close>: "Access denied - parent directory outside allowed directories"
  \<^item> \<open>ParentDoesNotExist\<close>: "Parent directory does not exist: ..."
  \<^item> \<open>CouldNotFindMatch\<close>: "Could not find exact match for edit: ..."
  \<^item> \<open>RealpathFailed\<close>, \<open>ReadFailed\<close>: the rejection of \<^verbatim>\<open>realpath\<close> and of reading a file.
\<close>

datatype fs_error =
    PathOutsideAllowed string "string list"
  | SymlinkTargetOutside
  | ParentOutsideAllowed
  | ParentDoesNotExist string
  | CouldNotFindMatch string
  | RealpathFailed string
  | ReadFailed string

text \<open>The error taxonomy of the specification, and the class of each error of the program.\<close>

datatype error_class = AccessDenied | NotFound | MatchNotFound | ArgumentInvalid | IOFailure

fun class_of :: "fs_error \<Rightarrow> error_class" where
  "class_of (PathOutsideAllowed p dirs) = AccessDenied"
| "class_of SymlinkTargetOutside = AccessDenied"
| "class_of ParentOutsideAllowed = AccessDenied"
| "class_of (ParentDoesNotExist p) = NotFound"
| "class_of (CouldNotFindMatch t) = MatchNotFound"
| "class_of (RealpathFailed p) = IOFailure"
| "class_of (ReadFailed p) = IOFailure"

definition normalizePath :: "string \<Rightarrow> string" where
  "normalizePath p = toLowerCase (path_normalize p)"

definition expandHome :: "runtime \<Rightarrow> string \<Rightarrow> string" where
  "expandHome rt filepath =
     (if startsWith filepath ''~/'' \<or> filepath = ''~''
      then path_join [homedir rt, drop 1 filepath]
      else filepath)"

text \<open>Lines 95 to 98: the absolute form of the requested path.\<close>

definition absolutePath :: "runtime \<Rightarrow> string \<Rightarrow> string" where
  "absolutePath rt requestedPath =
     (let expandedPath = expandHome rt requestedPath
      in if path_isAbsolute expandedPath
         then path_resolve (cwd rt) [expandedPath]
         else path_resolve (cwd rt) [cwd rt, expandedPath])"

text \<open>\<^verbatim>\<open>allowedDirectories.some((dir) => normalized.startsWith(dir))\<close>\<close>

definition isAllowed :: "string \<Rightarrow> string list \<Rightarrow> bool" where
  "isAllowed normalized allowedDirectories =
     list_ex (\<lambda>dir. startsWith normalized dir) allowedDirectories"

text \<open>
  The two \<^verbatim>\<open>try\<close> blocks. Each returns the value of its \<^verbatim>\<open>return\<close> or the error thrown
  inside it, the rejection of \<^verbatim>\<open>realpath\<close> included; the second component lists the
  \<^verbatim>\<open>realpath\<close> calls made, in order.
\<close>

definition try_realPath :: "runtime \<Rightarrow> string \<Rightarrow> string list \<Rightarrow> (fs_error + string) \<times> string list" where
  "try_realPath rt absolute allowedDirectories =
     (case realpath rt absolute of
        None \<Rightarrow> (Inl (RealpathFailed absolute), [absolute])
      | Some realPath \<Rightarrow>
          if \<not> isAllowed (normalizePath realPath) allowedDirectories
          then (Inl SymlinkTargetOutside, [absolute])
          else (Inr realPath, [absolute]))"

definition try_realParentPath :: "runtime \<Rightarrow> string \<Rightarrow> string \<Rightarrow> string list \<Rightarrow> (fs_error + string) \<times> string list" where
  "try_realParentPath rt absolute parentDir allowedDirectories =
     (case realpath rt parentDir of
        None \<Rightarrow> (Inl (RealpathFailed parentDir), [parentDir])
      | Some realParentPath \<Rightarrow>
          if \<not> isAllowed (normalizePath realParentPath) allowedDirectories
          then (Inl ParentOutsideAllowed, [parentDir])
          else (Inr absolute, [parentDir]))"

text \<open>
  The handler of the outer \<^verbatim>\<open>try\<close>: it runs on every error of the block, and the handler
  of its own inner \<^verbatim>\<open>try\<close> replaces every error of that block by \<open>ParentDoesNotExist\<close>.
\<close>

definition catch_parent :: "runtime \<Rightarrow> string \<Rightarrow> string list \<Rightarrow> (fs_error + string) \<times> string list" where
  "catch_parent rt absolute allowedDirectories =
     (let parentDir = path_dirname absolute
      in case try_realParentPath rt absolute parentDir allowedDirectories of
           (Inr p, calls) \<Rightarrow> (Inr p, calls)
         | (Inl _, calls) \<Rightarrow> (Inl (ParentDoesNotExist parentDir), calls))"

definition validatePath :: "runtime \<Rightarrow> string \<Rightarrow> string list \<Rightarrow> (fs_error + string) \<times> string list" where
  "validatePath rt requestedPath allowedDirectories =
     (let absolute = absolutePath rt requestedPath;
          normalizedRequested = normalizePath absolute
      in if \<not> isAllowed normalizedRequested allowedDirectories
         then (Inl (PathOutsideAllowed absolute allowedDirectories), [])
         else
           (case try_realPath rt absolute allowedDirectories of
              (Inr realPath, calls) \<Rightarrow> (Inr realPath, calls)
            | (Inl _, calls) \<Rightarrow>
                (case catch_parent rt absolute allowedDirectories of
                   (r, calls') \<Rightarrow> (r, calls @ calls'))))"

section \<open>PatchEngine: \<^verbatim>\<open>applyFileEdits\<close>\<close>

subsection \<open>The string functions it calls\<close>

text \<open>\<^verbatim>\<open>text.replace(/\r\n/g, "\n")\<close>: every CR LF pair, left to right, becomes LF.\<close>

fun normalizeLineEndings :: "string \<Rightarrow> string" where
  "normalizeLineEndings (c # d # rest) =
     (if c = CR \<and> d = LF then LF # normalizeLineEndings rest
      else c # normalizeLineEndings (d # rest))"
| "normalizeLineEndings s = s"

text \<open>\<^verbatim>\<open>s.indexOf(t)\<close>, with \<open>None\<close> for -1, and \<^verbatim>\<open>s.includes(t)\<close>.\<close>

fun indexOf :: "string \<Rightarrow> string \<Rightarrow> nat option" where
  "indexOf [] t = (if t = [] then Some 0 else None)"
| "indexOf (c # s) t =
     (if startsWith (c # s) t then Some 0 else map_option Suc (indexOf s t))"

definition includes_str :: "string \<Rightarrow> string \<Rightarrow> bool" where
  "includes_str s t = (indexOf s t \<noteq> None)"

text \<open>
  The replacement text of \<^verbatim>\<open>String.prototype.replace\<close> is a template: the language's
  \<^verbatim>\<open>GetSubstitution\<close> expands \<^verbatim>\<open>$$\<close> to a dollar sign, \<^verbatim>\<open>$&\<close> to the matched text,
  \<^verbatim>\<open>$`\<close> to the text before the match and \<^verbatim>\<open>$'\<close> to the text after it. The search value
  here is a string, so there are no captures, and every other use of the dollar sign
  stands for itself.
\<close>

fun GetSubstitution :: "string \<Rightarrow> string \<Rightarrow> nat \<Rightarrow> string \<Rightarrow> string" where
  "GetSubstitution matched str position (c # d # rest) =
     (if c = DOLLAR \<and> d = DOLLAR then DOLLAR # GetSubstitution matched str position rest
      else if c = DOLLAR \<and> d = CHR ''&'' then matched @ GetSubstitution matched str position rest
      else if c = DOLLAR \<and> d = CHR 0x60 then take position str @ GetSubstitution matched str position rest
      else if c = DOLLAR \<and> d = CHR 0x27
        then drop (position + length matched) str @ GetSubstitution matched str position rest
      else c # GetSubstitution matched str position (d # rest))"
| "GetSubstitution matched str position template = template"

text \<open>\<^verbatim>\<open>s.replace(searchValue, replaceValue)\<close> with two strings: the first occurrence only.\<close>

definition replace :: "string \<Rightarrow> string \<Rightarrow> string \<Rightarrow> string" where
  "replace s searchValue replaceValue =
     (case indexOf s searchValue of
        None \<Rightarrow> s
      | Some position \<Rightarrow>
          take position s @ GetSubstitution searchValue s position replaceValue
            @ drop (position + length searchValue) s)"

text \<open>
  White space as \<^verbatim>\<open>\s\<close>, \<^verbatim>\<open>trim\<close> and \<^verbatim>\<open>trimStart\<close> see it: tab, line feed, vertical tab,
  form feed, carriage return, space and no-break space.
\<close>

definition isWhiteSpace :: "char \<Rightarrow> bool" where
  "isWhiteSpace c = (c \<in> set [CHR 0x09, LF, CHR 0x0B, CHR 0x0C, CR, CHR 0x20, CHR 0xA0])"

definition trimStart :: "string \<Rightarrow> string" where
  "trimStart s = dropWhile isWhiteSpace s"

definition trim :: "string \<Rightarrow> string" where
  "trim s = rev (dropWhile isWhiteSpace (rev (dropWhile isWhiteSpace s)))"

text \<open>\<^verbatim>\<open>line.match(/^\s*/)?.[0] || ""\<close>: the pattern matches every string.\<close>

definition leadingWhitespace :: "string \<Rightarrow> string" where
  "leadingWhitespace line = takeWhile isWhiteSpace line"

subsection \<open>One edit\<close>

record edit =
  oldText :: string
  newText :: string

text \<open>Which branch of the loop body produced the new document.\<close>

datatype tier = Exact | Fuzzy

text \<open>
  \<^verbatim>\<open>oldLines.every((oldLine, j) => oldLine.trim() === potentialMatch[j].trim())\<close>; the
  window has as many lines as \<open>oldLines\<close>.
\<close>

definition isMatch :: "string list \<Rightarrow> string list \<Rightarrow> bool" where
  "isMatch oldLines potentialMatch = list_all2 (\<lambda>oldLine contentLine. trim oldLine = trim contentLine) oldLines potentialMatch"

text \<open>Lines 233 to 246: the callback of \<^verbatim>\<open>map\<close>, for the line at index \<open>j\<close>.\<close>

definition reconcileLine :: "string \<Rightarrow> string list \<Rightarrow> nat \<Rightarrow> string \<Rightarrow> string" where
  "reconcileLine originalIndent oldLines j line =
     (if j = 0 then originalIndent @ trimStart line
      else
        let oldIndent = (if j < length oldLines then leadingWhitespace (oldLines ! j) else []);
            newIndent = leadingWhitespace line
        in if oldIndent \<noteq> [] \<and> newIndent \<noteq> [] then
             let relativeIndent = int (length newIndent) - int (length oldIndent)
             in originalIndent @ replicate (nat (max 0 relativeIndent)) (CHR 0x20) @ trimStart line
           else line)"

definition newLines :: "string \<Rightarrow> string list \<Rightarrow> string \<Rightarrow> string list" where
  "newLines originalIndent oldLines normalizedNew =
     map (\<lambda>(j, line). reconcileLine originalIndent oldLines j line)
       (enumerate 0 (split_on LF normalizedNew))"

text \<open>
  The window loop, from index \<open>i\<close>: it runs while
  \<open>i \<le> contentLines.length - oldLines.length\<close> and stops at the first window that matches,
  with the document spliced and joined again.
\<close>

function fuzzyFrom :: "string list \<Rightarrow> string list \<Rightarrow> string \<Rightarrow> nat \<Rightarrow> string option" where
  "fuzzyFrom contentLines oldLines normalizedNew i =
     (if i + length oldLines \<le> length contentLines then
        if isMatch oldLines (take (length oldLines) (drop i contentLines)) then
          let originalIndent = leadingWhitespace (contentLines ! i)
          in Some (join_with LF
               (take i contentLines @ newLines originalIndent oldLines normalizedNew
                  @ drop (i + length oldLines) contentLines))
        else fuzzyFrom contentLines oldLines normalizedNew (Suc i)
      else None)"
  by pat_completeness auto
termination
  by (relation "measure (\<lambda>(contentLines, oldLines, normalizedNew, i). Suc (length contentLines) - i)") auto

declare fuzzyFrom.simps [simp del]

text \<open>The body of the loop over the edits, lines 211 to 257.\<close>

definition applyEdit :: "string \<Rightarrow> edit \<Rightarrow> fs_error + (tier \<times> string)" where
  "applyEdit modifiedContent e =
     (let normalizedOld = normalizeLineEndings (oldText e);
          normalizedNew = normalizeLineEndings (newText e)
      in if includes_str modifiedContent normalizedOld
         then Inr (Exact, replace modifiedContent normalizedOld normalizedNew)
         else
           (case fuzzyFrom (split_on LF modifiedContent) (split_on LF normalizedOld) normalizedNew 0 of
              Some spliced \<Rightarrow> Inr (Fuzzy, spliced)
            | None \<Rightarrow> Inl (CouldNotFindMatch (oldText e))))"

subsection \<open>The loop and the file\<close>

text \<open>
  The loop over the edits: each works on the document the one before it left, the first
  error ends the call, and the tiers used are listed beside the final document.
\<close>

fun applyEdits :: "string \<Rightarrow> edit list \<Rightarrow> fs_error + (string \<times> tier list)" where
  "applyEdits modifiedContent [] = Inr (modifiedContent, [])"
| "applyEdits modifiedContent (e # es) =
     (case applyEdit modifiedContent e of
        Inl err \<Rightarrow> Inl err
      | Inr (t, modifiedContent') \<Rightarrow>
          (case applyEdits modifiedContent' es of
             Inl err \<Rightarrow> Inl err
           | Inr (final, ts) \<Rightarrow> Inr (final, t # ts)))"

text \<open>Storage: the text of each file that exists. Reading a missing file fails.\<close>

type_synonym storage = "string \<rightharpoonup> string"

definition applyFileEdits :: "storage \<Rightarrow> string \<Rightarrow> edit list \<Rightarrow> bool \<Rightarrow> (fs_error + string) \<times> storage" where
  "applyFileEdits st filePath edits dryRun =
     (case st filePath of
        None \<Rightarrow> (Inl (ReadFailed filePath), st)
      | Some raw \<Rightarrow>
          let content = normalizeLineEndings raw
          in (case applyEdits content edits of
                Inl err \<Rightarrow> (Inl err, st)
              | Inr (modifiedContent, ts) \<Rightarrow>
                  if \<not> dryRun then (Inr modifiedContent, st(filePath \<mapsto> modifiedContent))
                  else (Inr modifiedContent, st)))"

subsection \<open>The indentation rule in the specification's words\<close>

text \<open>
  The first replacement line takes the indentation of the first matched line of the
  document before its own stripped content.
\<close>

definition spec_first_line :: "string \<Rightarrow> string \<Rightarrow> string" where
  "spec_first_line originalIndent line = originalIndent @ trimStart line"

text \<open>
  Each later replacement line is paired with the line of the old text at the same place.
  Where both begin with white space, the line is emitted as the original indentation,
  \<open>max(0, delta)\<close> spaces and its stripped content, \<open>delta\<close> being the length of its own
  indentation less that of the old line's; where either does not, or the old text has no
  line there, it is emitted as it stands.
\<close>

fun spec_later_lines :: "string \<Rightarrow> string list \<Rightarrow> string list \<Rightarrow> string list" where
  "spec_later_lines originalIndent olds [] = []"
| "spec_later_lines originalIndent [] (line # rest) = line # spec_later_lines originalIndent [] rest"
| "spec_later_lines originalIndent (oldLine # olds) (line # rest) =
     (if leadingWhitespace oldLine \<noteq> [] \<and> leadingWhitespace line \<noteq> []
      then originalIndent
             @ replicate (nat (max 0 (int (length (leadingWhitespace line))
                                       - int (length (leadingWhitespace oldLine))))) (CHR 0x20)
             @ trimStart line
      else line) # spec_later_lines originalIndent olds rest"

definition spec_reconcile :: "string \<Rightarrow> string list \<Rightarrow> string list \<Rightarrow> string list" where
  "spec_reconcile originalIndent oldLines replacement =
     (case replacement of
        [] \<Rightarrow> []
      | line # rest \<Rightarrow>
          spec_first_line originalIndent line # spec_later_lines originalIndent (drop 1 oldLines) rest)"

subsection \<open>Inverse edits\<close>

text \<open>The inverse of an edit list: old and new text of each edit swapped, in reverse order.\<close>

definition swapEdit :: "edit \<Rightarrow> edit" where
  "swapEdit e = \<lparr>oldText = newText e, newText = oldText e\<rparr>"

definition inverseEdits :: "edit list \<Rightarrow> edit list" where
  "inverseEdits edits = rev (map swapEdit edits)"

text \<open>No text of the list contains a dollar sign.\<close>

definition dollar_free :: "edit list \<Rightarrow> bool" where
  "dollar_free edits =
     list_all (\<lambda>e. DOLLAR \<notin> set (oldText e) \<and> DOLLAR \<notin> set (newText e)) edits"

text \<open>
  Along the run of the edits from document \<open>d\<close>: every edit finds its old text verbatim,
  and in the document it leaves, the first occurrence of its new text is the one it has
  just put there.
\<close>

fun restorable :: "string \<Rightarrow> edit list \<Rightarrow> bool" where
  "restorable d [] = True"
| "restorable d (e # es) =
     (let ol = normalizeLineEndings (oldText e);
          nw = normalizeLineEndings (newText e);
          d' = replace d ol nw
      in includes_str d ol \<and> indexOf d' nw = indexOf d ol \<and> restorable d' es)"

section \<open>Example inputs\<close>

text \<open>
  A file system with the directory \<^verbatim>\<open>/allowed\<close> and, inside it, the symbolic link
  \<^verbatim>\<open>/allowed/link\<close> to \<^verbatim>\<open>/etc\<close>; nothing else resolves.
\<close>

definition rt_symlink :: runtime where
  "rt_symlink =
     \<lparr> homedir = ''/home/u'', cwd = ''/srv'',
       realpath = (\<lambda>p. if p = ''/allowed'' then Some ''/allowed''
                        else if p = ''/allowed/link'' then Some ''/etc''
                        else None) \<rparr>"

text \<open>A file system without links, where every path resolves to itself.\<close>

definition rt_plain :: runtime where
  "rt_plain = \<lparr> homedir = ''/home/u'', cwd = ''/srv'', realpath = (\<lambda>p. Some p) \<rparr>"

text \<open>The edit of the specification's multi-line example.\<close>

definition example_edit :: edit where
  "example_edit =
     \<lparr> oldText = join_with LF [''  if (x) {'', ''    doThing();'', ''  }''],
       newText = join_with LF [''if (x) {'', ''  doOther();'', ''}''] \<rparr>"

text \<open>A document where the same three lines stand two spaces deeper, inside a function.\<close>

definition deeper_document :: string where
  "deeper_document =
     join_with LF [''function f() {'', ''    if (x) {'', ''      doThing();'', ''    }'', ''}'']"

text \<open>Three edits of which the second matches nothing, and a file for them.\<close>

definition failing_edits :: "edit list" where
  "failing_edits =
     [\<lparr>oldText = ''alpha'', newText = ''ALPHA''\<rparr>,
      \<lparr>oldText = ''delta'', newText = ''DELTA''\<rparr>,
      \<lparr>oldText = ''gamma'', newText = ''GAMMA''\<rparr>]"

definition greek_file :: storage where
  "greek_file = [''/f'' \<mapsto> join_with LF [''alpha'', ''beta'', ''gamma'']]"

text \<open>Two edits that can be undone, on a file with CR LF line endings.\<close>

definition assignment_edits :: "edit list" where
  "assignment_edits =
     [\<lparr>oldText = ''x = 1'', newText = ''x = 10''\<rparr>,
      \<lparr>oldText = ''y = 2;'', newText = ''y = 20;'' @ [CR, LF] @ ''z = 3;''\<rparr>]"

definition assignment_file :: storage where
  "assignment_file = [''/f'' \<mapsto> ''x = 1;'' @ [CR, LF] @ ''y = 2;'']"

text \<open>An edit whose new text also occurs before the place it is put.\<close>

definition ab_file :: storage where
  "ab_file = [''/f'' \<mapsto> ''ab'']"

definition b_to_a :: edit where
  "b_to_a = \<lparr>oldText = ''b'', newText = ''a''\<rparr>"

section \<open>PathGuard: properties\<close>

lemma startsWith_prefix: "startsWith s p \<longleftrightarrow> prefix p s"
  unfolding startsWith_def
  by (metis append_eq_conv_conj prefix_def append_take_drop_id)

lemma isAllowed_iff: "isAllowed n dirs \<longleftrightarrow> (\<exists>dir\<in>set dirs. startsWith n dir)"
  by (simp add: isAllowed_def list_ex_iff)

lemma absolutePath_realpath_update [simp]:
  "absolutePath (rt\<lparr>realpath := rp\<rparr>) P = absolutePath rt P"
  by (simp add: absolutePath_def expandHome_def Let_def)

text \<open>
  Claim C2. A requested path whose normalized absolute form starts with none of the
  allowed directories is refused with the access-denied error of the coarse check, no
  \<^verbatim>\<open>realpath\<close> call is made, and the answer is the same whatever the file system holds.
\<close>

theorem coarse_reject_before_filesystem:
  assumes "\<forall>dir\<in>set allowedDirectories. \<not> startsWith (normalizePath (absolutePath rt P)) dir"
  shows "validatePath rt P allowedDirectories
           = (Inl (PathOutsideAllowed (absolutePath rt P) allowedDirectories), [])
         \<and> class_of (PathOutsideAllowed (absolutePath rt P) allowedDirectories) = AccessDenied
         \<and> validatePath (rt\<lparr>realpath := rp\<rparr>) P allowedDirectories = validatePath rt P allowedDirectories"
proof -
  from assms have "\<not> isAllowed (normalizePath (absolutePath rt P)) allowedDirectories"
    by (simp add: isAllowed_iff)
  then show ?thesis
    by (simp add: validatePath_def Let_def)
qed

theorem coarse_reject_before_filesystem_witness:
  "\<not> (\<exists>dir\<in>set [''/allowed'']. startsWith (normalizePath (absolutePath rt_symlink ''/etc/passwd'')) dir)
   \<and> validatePath rt_symlink ''/etc/passwd'' [''/allowed'']
       = (Inl (PathOutsideAllowed ''/etc/passwd'' [''/allowed'']), [])"
proof -
  have a: "absolutePath rt_symlink ''/etc/passwd'' = ''/etc/passwd''"
    by code_simp
  have h: "\<forall>dir\<in>set [''/allowed'']. \<not> startsWith (normalizePath (absolutePath rt_symlink ''/etc/passwd'')) dir"
    by code_simp
  from coarse_reject_before_filesystem [OF h] a h show ?thesis
    by simp
qed

text \<open>
  What the code does once the coarse check has passed. The error raised inside a
  \<^verbatim>\<open>try\<close> block is caught by the block's own handler, so neither \<open>SymlinkTargetOutside\<close>
  nor \<open>ParentOutsideAllowed\<close> ever leaves the function.
\<close>

lemma validatePath_passed_coarse:
  assumes "isAllowed (normalizePath (absolutePath rt P)) dirs"
  shows "fst (validatePath rt P dirs) =
           (case realpath rt (absolutePath rt P) of
              None \<Rightarrow> fst (catch_parent rt (absolutePath rt P) dirs)
            | Some rp \<Rightarrow> if isAllowed (normalizePath rp) dirs then Inr rp
                         else fst (catch_parent rt (absolutePath rt P) dirs))"
  using assms
  by (simp add: validatePath_def try_realPath_def Let_def split: option.splits prod.splits)

lemma catch_parent_result:
  "fst (catch_parent rt absolute dirs) =
     (case realpath rt (path_dirname absolute) of
        None \<Rightarrow> Inl (ParentDoesNotExist (path_dirname absolute))
      | Some rpp \<Rightarrow> if isAllowed (normalizePath rpp) dirs then Inr absolute
                     else Inl (ParentDoesNotExist (path_dirname absolute)))"
  by (simp add: catch_parent_def try_realParentPath_def Let_def split: option.splits)

lemma validatePath_never_denies_after_coarse:
  assumes "isAllowed (normalizePath (absolutePath rt P)) dirs"
      and "fst (validatePath rt P dirs) = Inl err"
  shows "class_of err = NotFound"
  using assms
  by (auto simp: validatePath_passed_coarse catch_parent_result split: option.splits if_splits)

lemma validatePath_missing_parent_missing:
  assumes "isAllowed (normalizePath (absolutePath rt P)) dirs"
      and "realpath rt (absolutePath rt P) = None"
      and "realpath rt (path_dirname (absolutePath rt P)) = None"
  shows "fst (validatePath rt P dirs) = Inl (ParentDoesNotExist (path_dirname (absolutePath rt P)))"
  using assms by (simp add: validatePath_passed_coarse catch_parent_result)

lemma validatePath_missing_parent_inside:
  assumes "isAllowed (normalizePath (absolutePath rt P)) dirs"
      and "realpath rt (absolutePath rt P) = None"
      and "realpath rt (path_dirname (absolutePath rt P)) = Some rpp"
      and "isAllowed (normalizePath rpp) dirs"
  shows "fst (validatePath rt P dirs) = Inr (absolutePath rt P)"
  using assms by (simp add: validatePath_passed_coarse catch_parent_result)

text \<open>
  A path that resolves outside every allowed directory is accepted whenever its parent
  resolves inside one, and the path returned is the unresolved one.
\<close>

lemma validatePath_target_outside_parent_inside:
  assumes "isAllowed (normalizePath (absolutePath rt P)) dirs"
      and "realpath rt (absolutePath rt P) = Some rp"
      and "\<not> isAllowed (normalizePath rp) dirs"
      and "realpath rt (path_dirname (absolutePath rt P)) = Some rpp"
      and "isAllowed (normalizePath rpp) dirs"
  shows "fst (validatePath rt P dirs) = Inr (absolutePath rt P)"
  using assms by (simp add: validatePath_passed_coarse catch_parent_result)

text \<open>
  Claim C1, at the input that shows the defect. \<^verbatim>\<open>/allowed/link\<close> passes the coarse check
  and resolves to \<^verbatim>\<open>/etc\<close>, outside the only allowed directory; the access-denied error
  is raised and caught, the parent \<^verbatim>\<open>/allowed\<close> is found inside, and the call succeeds
  with the path of the link.
\<close>

theorem symlink_escape_accepted:
  "realpath rt_symlink (absolutePath rt_symlink ''/allowed/link'') = Some ''/etc''
   \<and> isAllowed (normalizePath (absolutePath rt_symlink ''/allowed/link'')) [''/allowed'']
   \<and> \<not> isAllowed (normalizePath ''/etc'') [''/allowed'']
   \<and> validatePath rt_symlink ''/allowed/link'' [''/allowed'']
       = (Inr ''/allowed/link'', [''/allowed/link'', ''/allowed''])"
  by code_simp

text \<open>
  Claim C3, at the input that shows the defect. \<^verbatim>\<open>/allowed/link/new.txt\<close> does not exist
  and its parent resolves to \<^verbatim>\<open>/etc\<close>, outside the only allowed directory; the
  access-denied error is raised and caught, and the caller is told that the parent
  directory does not exist.
\<close>

theorem parent_outside_reported_missing:
  "realpath rt_symlink (absolutePath rt_symlink ''/allowed/link/new.txt'') = None
   \<and> isAllowed (normalizePath (absolutePath rt_symlink ''/allowed/link/new.txt'')) [''/allowed'']
   \<and> realpath rt_symlink (path_dirname (absolutePath rt_symlink ''/allowed/link/new.txt'')) = Some ''/etc''
   \<and> \<not> isAllowed (normalizePath ''/etc'') [''/allowed'']
   \<and> fst (validatePath rt_symlink ''/allowed/link/new.txt'' [''/allowed''])
       = Inl (ParentDoesNotExist ''/allowed/link'')
   \<and> class_of (ParentDoesNotExist ''/allowed/link'') = NotFound"
  by code_simp

text \<open>
  Claim C4. The coarse check is a test on characters: a path is accepted as soon as its
  normalized form starts with a normalized allowed directory, wherever the directory's
  text ends in it. With \<^verbatim>\<open>/data/foo\<close> allowed, \<^verbatim>\<open>/data/foobar\<close> passes the check, and on a
  file system without links the whole validation.
\<close>

theorem coarse_check_raw_prefix:
  "(R \<in> set roots \<longrightarrow> prefix (normalizePath R) (normalizePath P)
      \<longrightarrow> isAllowed (normalizePath P) (map normalizePath roots))
   \<and> isAllowed (normalizePath (absolutePath rt_plain ''/data/foobar'')) (map normalizePath [''/data/foo''])
   \<and> validatePath rt_plain ''/data/foobar'' (map normalizePath [''/data/foo''])
       = (Inr ''/data/foobar'', [''/data/foobar''])"
proof -
  have "isAllowed (normalizePath P) (map normalizePath roots)"
    if "R \<in> set roots" "prefix (normalizePath R) (normalizePath P)"
    using that by (auto simp: isAllowed_iff startsWith_prefix)
  moreover have "isAllowed (normalizePath (absolutePath rt_plain ''/data/foobar'')) (map normalizePath [''/data/foo''])"
    by code_simp
  moreover have "validatePath rt_plain ''/data/foobar'' (map normalizePath [''/data/foo''])
       = (Inr ''/data/foobar'', [''/data/foobar''])"
    by code_simp
  ultimately show ?thesis by blast
qed

theorem coarse_check_raw_prefix_witness:
  "''/data/foo'' \<in> set [''/data/foo'']
   \<and> prefix (normalizePath ''/data/foo'') (normalizePath ''/data/foobar'')
   \<and> isAllowed (normalizePath ''/data/foobar'') (map normalizePath [''/data/foo''])"
proof -
  have m: "''/data/foo'' \<in> set [''/data/foo'']" by simp
  have p: "prefix (normalizePath ''/data/foo'') (normalizePath ''/data/foobar'')"
    unfolding startsWith_prefix [symmetric] by code_simp
  from coarse_check_raw_prefix [of "''/data/foo''" "[''/data/foo'']" "''/data/foobar''"] m p
  show ?thesis by blast
qed

text \<open>
  Claim C8, as the code has it. With an empty allow-list no directory can be a prefix, so
  every request is refused by the coarse check: the error is the access-denied one, no
  \<^verbatim>\<open>realpath\<close> call is made, and the function has no error for a malformed allow-list.
\<close>

theorem empty_allow_list_denied:
  "validatePath rt P [] = (Inl (PathOutsideAllowed (absolutePath rt P) []), [])
   \<and> class_of (PathOutsideAllowed (absolutePath rt P) []) = AccessDenied"
  by (simp add: validatePath_def isAllowed_def Let_def)

theorem empty_allow_list_counterexample:
  "validatePath rt_plain ''/data/x'' [] = (Inl (PathOutsideAllowed ''/data/x'' []), [])
   \<and> class_of (PathOutsideAllowed ''/data/x'' []) \<noteq> ArgumentInvalid"
  by code_simp

section \<open>PatchEngine: properties\<close>

subsection \<open>Searching and replacing\<close>

lemma GetSubstitution_no_dollar:
  "DOLLAR \<notin> set template \<Longrightarrow> GetSubstitution matched str position template = template"
  by (induction matched str position template rule: GetSubstitution.induct) auto

lemma set_normalizeLineEndings: "set (normalizeLineEndings s) \<subseteq> set s"
  by (induction s rule: normalizeLineEndings.induct) auto

lemma indexOf_empty [simp]: "indexOf s [] = Some 0"
  by (cases s) (simp_all add: startsWith_def)

lemma indexOf_Some:
  "indexOf s t = Some pos \<Longrightarrow> pos + length t \<le> length s \<and> take (length t) (drop pos s) = t"
proof (induction s arbitrary: pos)
  case Nil
  then show ?case by (simp split: if_splits)
next
  case (Cons c s)
  show ?case
  proof (cases "startsWith (c # s) t")
    case True
    with Cons.prems have "pos = 0" by simp
    moreover from True have "take (length t) (c # s) = t" by (simp add: startsWith_def)
    moreover from this have "length t \<le> length (c # s)"
      by (metis length_take min.cobounded1)
    ultimately show ?thesis by simp
  next
    case False
    with Cons.prems obtain q where q: "indexOf s t = Some q" "pos = Suc q"
      by auto
    from Cons.IH [OF q(1)] q(2) show ?thesis by simp
  qed
qed

text \<open>The occurrence found is the leftmost one.\<close>

lemma indexOf_leftmost:
  "indexOf s t = Some pos \<Longrightarrow> k < pos \<Longrightarrow> \<not> startsWith (drop k s) t"
proof (induction s arbitrary: pos k)
  case Nil
  then show ?case by (simp split: if_splits)
next
  case (Cons c s)
  show ?case
  proof (cases "startsWith (c # s) t")
    case True
    with Cons.prems show ?thesis by simp
  next
    case False
    with Cons.prems obtain q where q: "indexOf s t = Some q" "pos = Suc q"
      by auto
    show ?thesis
    proof (cases k)
      case 0
      with False show ?thesis by simp
    next
      case (Suc j)
      with Cons.prems q have "j < q" by simp
      from Cons.IH [OF q(1) this] Suc show ?thesis by simp
    qed
  qed
qed

lemma indexOf_split:
  assumes "indexOf s t = Some pos"
  shows "s = take pos s @ t @ drop (pos + length t) s"
proof -
  from indexOf_Some [OF assms] have "take (length t) (drop pos s) = t" by simp
  then have "drop pos s = t @ drop (length t) (drop pos s)"
    by (metis append_take_drop_id)
  then have "s = take pos s @ t @ drop (length t) (drop pos s)"
    by (metis append_take_drop_id)
  then show ?thesis by (simp add: add.commute)
qed

text \<open>
  Replacing back: when the new text is first found where it was put, and neither text is
  a template, the second replacement restores the document.
\<close>

lemma replace_inverse:
  assumes pos: "indexOf d ol = Some pos"
      and nd: "DOLLAR \<notin> set nw" and od: "DOLLAR \<notin> set ol"
      and refound: "indexOf (replace d ol nw) nw = Some pos"
  shows "replace (replace d ol nw) nw ol = d"
proof -
  let ?d' = "take pos d @ nw @ drop (pos + length ol) d"
  have d': "replace d ol nw = ?d'"
    using pos nd by (simp add: replace_def GetSubstitution_no_dollar)
  from indexOf_Some [OF pos] have le: "pos \<le> length d" by simp
  have "replace ?d' nw ol = take pos ?d' @ ol @ drop (pos + length nw) ?d'"
    using refound od unfolding d' by (simp add: replace_def GetSubstitution_no_dollar)
  also have "\<dots> = take pos d @ ol @ drop (pos + length ol) d"
    using le by (simp add: min_def)
  also have "\<dots> = d"
    using indexOf_split [OF pos] by simp
  finally show ?thesis by (simp add: d')
qed

subsection \<open>The exact tier\<close>

lemma applyEdit_exact:
  "includes_str d (normalizeLineEndings (oldText e)) \<Longrightarrow>
   applyEdit d e =
     Inr (Exact, replace d (normalizeLineEndings (oldText e)) (normalizeLineEndings (newText e)))"
  by (simp add: applyEdit_def Let_def)

text \<open>
  An old text that occurs verbatim is replaced at its leftmost occurrence by the exact
  tier, whatever the window loop would find; what is put there is the expansion of the
  new text as a replacement template.
\<close>

lemma exact_tier_precedence:
  assumes "includes_str c (normalizeLineEndings (oldText e))"
  shows "\<exists>pos. indexOf c (normalizeLineEndings (oldText e)) = Some pos
           \<and> (\<forall>k<pos. \<not> startsWith (drop k c) (normalizeLineEndings (oldText e)))
           \<and> applyEdit c e =
               Inr (Exact, take pos c
                      @ GetSubstitution (normalizeLineEndings (oldText e)) c pos
                          (normalizeLineEndings (newText e))
                      @ drop (pos + length (normalizeLineEndings (oldText e))) c)"
proof -
  from assms obtain pos where pos: "indexOf c (normalizeLineEndings (oldText e)) = Some pos"
    by (auto simp: includes_str_def)
  then show ?thesis
    using assms indexOf_leftmost [OF pos]
    by (auto simp: applyEdit_def Let_def replace_def)
qed

lemma exact_tier_plain_text:
  assumes "indexOf c (normalizeLineEndings (oldText e)) = Some pos"
      and "DOLLAR \<notin> set (newText e)"
  shows "applyEdit c e =
           Inr (Exact, take pos c @ normalizeLineEndings (newText e)
                  @ drop (pos + length (normalizeLineEndings (oldText e))) c)"
proof -
  from assms(2) have "DOLLAR \<notin> set (normalizeLineEndings (newText e))"
    using set_normalizeLineEndings by blast
  with assms(1) show ?thesis
    by (simp add: applyEdit_def Let_def replace_def includes_str_def GetSubstitution_no_dollar)
qed

text \<open>
  A near match on an earlier line does not draw the edit away from the verbatim
  occurrence: the first line differs from the old text by white space only.
\<close>

lemma exact_tier_skips_earlier_near_match:
  "isMatch [''foo();''] (take 1 (drop 0 (split_on LF (join_with LF [''  foo() ;'', ''foo();'']))))
     = False
   \<and> isMatch [''foo();''] (take 1 (drop 0 (split_on LF (join_with LF ['' foo(); '', ''foo();'']))))
   \<and> applyEdit (join_with LF ['' foo(); '', ''foo();'']) \<lparr>oldText = ''foo();'', newText = ''bar();''\<rparr>
       = Inr (Exact, join_with LF ['' bar(); '', ''foo();''])"
  by code_simp

text \<open>
  Claim C5, at an input that shows the defect. The old text \<open>X\<close> occurs verbatim and the
  exact tier replaces it, but the new text \<^verbatim>\<open>$$5\<close> is read as a template and \<^verbatim>\<open>$5\<close> is
  what reaches the document.
\<close>

theorem exact_replacement_expands_template:
  "includes_str ''total: X'' (normalizeLineEndings ''X'')
   \<and> applyEdit ''total: X'' \<lparr>oldText = ''X'', newText = ''$$5''\<rparr> = Inr (Exact, ''total: $5'')
   \<and> ''total: $5'' \<noteq> ''total: '' @ normalizeLineEndings ''$$5''"
  by code_simp

text \<open>An empty old text is found at index 0 of every document, so the edit cannot fail.\<close>

lemma empty_oldText_never_fails:
  assumes "oldText e = []"
  shows "applyEdit c e = Inr (Exact, GetSubstitution [] c 0 (normalizeLineEndings (newText e)) @ c)"
  using assms by (simp add: applyEdit_def Let_def includes_str_def replace_def)

lemma empty_oldText_plain_text:
  assumes "oldText e = []" and "DOLLAR \<notin> set (newText e)"
  shows "applyEdit c e = Inr (Exact, normalizeLineEndings (newText e) @ c)"
proof -
  from assms(2) have "DOLLAR \<notin> set (normalizeLineEndings (newText e))"
    using set_normalizeLineEndings by blast
  then show ?thesis
    by (simp add: empty_oldText_never_fails [OF assms(1)] GetSubstitution_no_dollar)
qed

text \<open>
  Claim C10, at an input that shows the defect. With an empty old text the edit succeeds
  at the exact tier, but the new text \<^verbatim>\<open>$'\<close> is read as a template for the text after the
  match: the document is put before itself, and the new text is not.
\<close>

theorem empty_oldText_expands_template:
  "applyEdit ''abc'' \<lparr>oldText = [], newText = [DOLLAR, CHR 0x27]\<rparr> = Inr (Exact, ''abcabc'')
   \<and> ''abcabc'' \<noteq> normalizeLineEndings [DOLLAR, CHR 0x27] @ ''abc''"
  by code_simp

subsection \<open>The fuzzy tier\<close>

lemma later_lines_eq:
  "map (\<lambda>(j, line). reconcileLine ind olds j line) (enumerate (Suc k) ls)
     = spec_later_lines ind (drop (Suc k) olds) ls"
proof (induction ls arbitrary: k)
  case Nil
  then show ?case by simp
next
  case (Cons l ls)
  show ?case
  proof (cases "Suc k < length olds")
    case True
    then have d: "drop (Suc k) olds = olds ! Suc k # drop (Suc (Suc k)) olds"
      by (simp add: Cons_nth_drop_Suc)
    show ?thesis
      using True Cons.IH [of "Suc k"]
      by (simp add: d reconcileLine_def Let_def)
  next
    case False
    then have d: "drop (Suc k) olds = []" "drop (Suc (Suc k)) olds = []" by simp_all
    show ?thesis
      using False Cons.IH [of "Suc k"]
      by (simp add: d reconcileLine_def Let_def)
  qed
qed

lemma split_on_nonempty: "split_on sep s \<noteq> []"
  by (induction s) (auto split: list.splits)

text \<open>The lines the code emits are those of the rule.\<close>

lemma newLines_spec:
  "newLines ind olds normalizedNew = spec_reconcile ind olds (split_on LF normalizedNew)"
proof (cases "split_on LF normalizedNew")
  case Nil
  then show ?thesis using split_on_nonempty by blast
next
  case (Cons l ls)
  then show ?thesis
    using later_lines_eq [of ind olds 0 ls]
    by (simp add: newLines_def spec_reconcile_def spec_first_line_def reconcileLine_def)
qed

text \<open>The window loop stops at the lowest index whose window matches.\<close>

lemma fuzzyFrom_first_match:
  assumes "i + length ols \<le> length cl"
      and "isMatch ols (take (length ols) (drop i cl))"
      and "\<forall>k. s \<le> k \<and> k < i \<longrightarrow> \<not> isMatch ols (take (length ols) (drop k cl))"
      and "s \<le> i"
  shows "fuzzyFrom cl ols nw s =
           Some (join_with LF (take i cl @ newLines (leadingWhitespace (cl ! i)) ols nw
                   @ drop (i + length ols) cl))"
  using assms
proof (induction "i - s" arbitrary: s)
  case 0
  then have "s = i" by simp
  with 0 show ?case by (subst fuzzyFrom.simps) (simp add: Let_def)
next
  case (Suc d)
  then have lt: "s < i" by simp
  with Suc.prems have nm: "\<not> isMatch ols (take (length ols) (drop s cl))" by simp
  from lt Suc.prems have le: "s + length ols \<le> length cl" by simp
  have "fuzzyFrom cl ols nw s = fuzzyFrom cl ols nw (Suc s)"
    using nm le by (subst fuzzyFrom.simps) simp
  also have "\<dots> = Some (join_with LF (take i cl @ newLines (leadingWhitespace (cl ! i)) ols nw
                   @ drop (i + length ols) cl))"
  proof (rule Suc.hyps(1))
    show "d = i - Suc s" using Suc.hyps(2) by simp
    show "i + length ols \<le> length cl" by (rule Suc.prems(1))
    show "isMatch ols (take (length ols) (drop i cl))" by (rule Suc.prems(2))
    show "\<forall>k. Suc s \<le> k \<and> k < i \<longrightarrow> \<not> isMatch ols (take (length ols) (drop k cl))"
      using Suc.prems(3) by simp
    show "Suc s \<le> i" using lt by simp
  qed
  finally show ?case .
qed

text \<open>It finds nothing exactly when no window matches.\<close>

lemma fuzzyFrom_None:
  "fuzzyFrom cl ols nw s = None \<longleftrightarrow>
     (\<forall>k. s \<le> k \<and> k + length ols \<le> length cl \<longrightarrow> \<not> isMatch ols (take (length ols) (drop k cl)))"
proof (induction cl ols nw s rule: fuzzyFrom.induct)
  case (1 cl ols nw i)
  show ?case
  proof (cases "i + length ols \<le> length cl")
    case False
    then show ?thesis by (subst fuzzyFrom.simps) auto
  next
    case True
    show ?thesis
    proof (cases "isMatch ols (take (length ols) (drop i cl))")
      case m: True
      with True show ?thesis by (subst fuzzyFrom.simps) (auto simp: Let_def)
    next
      case m: False
      have "fuzzyFrom cl ols nw i = fuzzyFrom cl ols nw (Suc i)"
        using True m by (subst fuzzyFrom.simps) simp
      moreover have "(\<forall>k. i \<le> k \<and> k + length ols \<le> length cl \<longrightarrow> \<not> isMatch ols (take (length ols) (drop k cl)))
          \<longleftrightarrow> (\<forall>k. Suc i \<le> k \<and> k + length ols \<le> length cl \<longrightarrow> \<not> isMatch ols (take (length ols) (drop k cl)))"
        using m by (metis Suc_leI le_neq_implies_less Suc_leD)
      ultimately show ?thesis using "1.IH" [OF True m] by simp
    qed
  qed
qed

text \<open>
  Claim C6, the rule. When the old text does not occur verbatim and \<open>i\<close> is the lowest
  index at which the window of document lines matches the old lines up to surrounding
  white space, the edit succeeds at the fuzzy tier: the window is replaced by the
  replacement lines, reconciled as the specification words it with the indentation of
  document line \<open>i\<close>, and the lines are joined again.
\<close>

theorem fuzzy_reconciliation_rule:
  assumes "\<not> includes_str c (normalizeLineEndings (oldText e))"
      and "contentLines = split_on LF c"
      and "oldLines = split_on LF (normalizeLineEndings (oldText e))"
      and "i + length oldLines \<le> length contentLines"
      and "isMatch oldLines (take (length oldLines) (drop i contentLines))"
      and "\<forall>k<i. \<not> isMatch oldLines (take (length oldLines) (drop k contentLines))"
  shows "applyEdit c e =
           Inr (Fuzzy, join_with LF
                  (take i contentLines
                   @ spec_reconcile (leadingWhitespace (contentLines ! i)) oldLines
                       (split_on LF (normalizeLineEndings (newText e)))
                   @ drop (i + length oldLines) contentLines))"
proof -
  have "fuzzyFrom contentLines oldLines (normalizeLineEndings (newText e)) 0 =
          Some (join_with LF (take i contentLines
                  @ newLines (leadingWhitespace (contentLines ! i)) oldLines (normalizeLineEndings (newText e))
                  @ drop (i + length oldLines) contentLines))"
    using assms(4,5,6) by (intro fuzzyFrom_first_match) simp_all
  then show ?thesis
    using assms(1,2,3) by (simp add: applyEdit_def Let_def newLines_spec)
qed

text \<open>
  The rule at work: the three lines stand two spaces deeper in the document than in the
  old text, the window at index 1 is the first to match, the second replacement line is
  indented less than the old one and gets no extra space, and the last replacement line,
  which has no indentation, is emitted as it stands.
\<close>

theorem fuzzy_reconciliation_rule_witness:
  "\<not> includes_str deeper_document (normalizeLineEndings (oldText example_edit))
   \<and> isMatch [''  if (x) {'', ''    doThing();'', ''  }'']
       (take 3 (drop 1 (split_on LF deeper_document)))
   \<and> applyEdit deeper_document example_edit
       = Inr (Fuzzy, join_with LF [''function f() {'', ''    if (x) {'', ''    doOther();'', ''}'', ''}''])"
proof -
  let ?cl = "[''function f() {'', ''    if (x) {'', ''      doThing();'', ''    }'', ''}'']"
  let ?ol = "[''  if (x) {'', ''    doThing();'', ''  }'']"
  have h1: "\<not> includes_str deeper_document (normalizeLineEndings (oldText example_edit))"
    by code_simp
  have h2: "?cl = split_on LF deeper_document"
    by code_simp
  have h3: "?ol = split_on LF (normalizeLineEndings (oldText example_edit))"
    by code_simp
  have h4: "1 + length ?ol \<le> length ?cl"
    by simp
  have h5: "isMatch ?ol (take (length ?ol) (drop 1 ?cl))"
    by code_simp
  have "\<not> isMatch ?ol (take (length ?ol) (drop 0 ?cl))"
    by code_simp
  then have h6: "\<forall>k<1. \<not> isMatch ?ol (take (length ?ol) (drop k ?cl))"
    by simp
  have r: "join_with LF
             (take 1 ?cl
              @ spec_reconcile (leadingWhitespace (?cl ! 1)) ?ol
                  (split_on LF (normalizeLineEndings (newText example_edit)))
              @ drop (1 + length ?ol) ?cl)
           = join_with LF [''function f() {'', ''    if (x) {'', ''    doOther();'', ''}'', ''}'']"
    by code_simp
  have m: "isMatch ?ol (take 3 (drop 1 (split_on LF deeper_document)))"
    by code_simp
  from fuzzy_reconciliation_rule [OF h1 h2 h3 h4 h5 h6] r h1 m show ?thesis
    by simp
qed

text \<open>
  The specification's example as it is given: the old text occurs verbatim in the
  document, so the exact tier puts the new text in its place, unchanged.
\<close>

theorem example_takes_exact_tier:
  "applyEdit (join_with LF [''  if (x) {'', ''    doThing();'', ''  }'']) example_edit
     = Inr (Exact, join_with LF [''if (x) {'', ''  doOther();'', ''}''])
   \<and> join_with LF [''if (x) {'', ''  doOther();'', ''}'']
       \<noteq> join_with LF [''  if (x) {'', ''  doOther();'', ''  }'']"
  by code_simp

subsection \<open>The loop, the file and the inverse edits\<close>

lemma applyEdits_append:
  "applyEdits d (xs @ ys) =
     (case applyEdits d xs of
        Inl err \<Rightarrow> Inl err
      | Inr (d1, ts) \<Rightarrow>
          (case applyEdits d1 ys of
             Inl err \<Rightarrow> Inl err
           | Inr (d2, ts') \<Rightarrow> Inr (d2, ts @ ts')))"
  by (induction xs arbitrary: d) (auto split: sum.splits prod.splits)

text \<open>
  Claim C9. When the edits before \<open>e\<close> succeed and leave the document \<open>d\<close>, and \<open>e\<close>
  matches \<open>d\<close> at neither tier, the call on the file fails with the error that carries the
  old text of \<open>e\<close>, and storage is what it was.
\<close>

theorem failed_edit_writes_nothing:
  assumes "st filePath = Some raw"
      and "edits = pre @ e # post"
      and "applyEdits (normalizeLineEndings raw) pre = Inr (d, ts)"
      and "\<not> includes_str d (normalizeLineEndings (oldText e))"
      and "\<forall>i. i + length (split_on LF (normalizeLineEndings (oldText e))) \<le> length (split_on LF d)
             \<longrightarrow> \<not> isMatch (split_on LF (normalizeLineEndings (oldText e)))
                    (take (length (split_on LF (normalizeLineEndings (oldText e)))) (drop i (split_on LF d)))"
  shows "applyFileEdits st filePath edits False = (Inl (CouldNotFindMatch (oldText e)), st)
         \<and> class_of (CouldNotFindMatch (oldText e)) = MatchNotFound"
proof -
  from assms(5) have "fuzzyFrom (split_on LF d) (split_on LF (normalizeLineEndings (oldText e)))
          (normalizeLineEndings (newText e)) 0 = None"
    by (simp add: fuzzyFrom_None)
  with assms(4) have "applyEdit d e = Inl (CouldNotFindMatch (oldText e))"
    by (simp add: applyEdit_def Let_def)
  then have "applyEdits d (e # post) = Inl (CouldNotFindMatch (oldText e))"
    by simp
  with assms(3) have "applyEdits (normalizeLineEndings raw) edits = Inl (CouldNotFindMatch (oldText e))"
    by (simp add: assms(2) applyEdits_append)
  with assms(1) show ?thesis
    by (simp add: applyFileEdits_def Let_def)
qed

text \<open>
  The second of three edits fails after the first has changed the document in memory;
  the file keeps its text.
\<close>

theorem failed_edit_writes_nothing_witness:
  "applyEdits (normalizeLineEndings (join_with LF [''alpha'', ''beta'', ''gamma'']))
       [\<lparr>oldText = ''alpha'', newText = ''ALPHA''\<rparr>]
     = Inr (join_with LF [''ALPHA'', ''beta'', ''gamma''], [Exact])
   \<and> applyFileEdits greek_file ''/f'' failing_edits False
       = (Inl (CouldNotFindMatch ''delta''), greek_file)
   \<and> greek_file ''/f'' = Some (join_with LF [''alpha'', ''beta'', ''gamma''])"
proof -
  let ?raw = "join_with LF [''alpha'', ''beta'', ''gamma'']"
  let ?e = "\<lparr>oldText = ''delta'', newText = ''DELTA''\<rparr>"
  let ?d = "join_with LF [''ALPHA'', ''beta'', ''gamma'']"
  have h1: "greek_file ''/f'' = Some ?raw"
    by (simp add: greek_file_def)
  have h2: "failing_edits = [\<lparr>oldText = ''alpha'', newText = ''ALPHA''\<rparr>] @ ?e # [\<lparr>oldText = ''gamma'', newText = ''GAMMA''\<rparr>]"
    by (simp add: failing_edits_def)
  have h3: "applyEdits (normalizeLineEndings ?raw) [\<lparr>oldText = ''alpha'', newText = ''ALPHA''\<rparr>] = Inr (?d, [Exact])"
    by code_simp
  have h4: "\<not> includes_str ?d (normalizeLineEndings (oldText ?e))"
    by code_simp
  have "fuzzyFrom (split_on LF ?d) (split_on LF (normalizeLineEndings (oldText ?e))) [] 0 = None"
    by code_simp
  then have h5: "\<forall>i. i + length (split_on LF (normalizeLineEndings (oldText ?e))) \<le> length (split_on LF ?d)
             \<longrightarrow> \<not> isMatch (split_on LF (normalizeLineEndings (oldText ?e)))
                    (take (length (split_on LF (normalizeLineEndings (oldText ?e)))) (drop i (split_on LF ?d)))"
    unfolding fuzzyFrom_None by simp
  from failed_edit_writes_nothing
         [where st = greek_file and filePath = "''/f''" and e = "?e" and d = "?d", OF h1 h2 h3 h4 h5] h1 h3
  show ?thesis
    by simp
qed

text \<open>
  A run of edits that is restorable and free of dollar signs uses the exact tier
  throughout, and so does the run of the inverse edits on its result, which ends in the
  document the first run began with.
\<close>

lemma applyEdits_restorable:
  assumes "dollar_free es" and "restorable d es"
  shows "\<exists>d'. applyEdits d es = Inr (d', replicate (length es) Exact)
            \<and> applyEdits d' (inverseEdits es) = Inr (d, replicate (length es) Exact)"
  using assms
proof (induction es arbitrary: d)
  case Nil
  then show ?case by (simp add: inverseEdits_def)
next
  case (Cons e es)
  let ?ol = "normalizeLineEndings (oldText e)"
  let ?nw = "normalizeLineEndings (newText e)"
  let ?d1 = "replace d ?ol ?nw"
  from Cons.prems(2) have inc: "includes_str d ?ol"
    and same: "indexOf ?d1 ?nw = indexOf d ?ol"
    and rest: "restorable ?d1 es"
    by (simp_all add: Let_def)
  from Cons.prems(1) have df: "dollar_free es" and od: "DOLLAR \<notin> set ?ol" and nd: "DOLLAR \<notin> set ?nw"
    using set_normalizeLineEndings by (auto simp: dollar_free_def)
  from inc obtain pos where pos: "indexOf d ?ol = Some pos"
    by (auto simp: includes_str_def)
  from Cons.IH [OF df rest] obtain d' where
    fw: "applyEdits ?d1 es = Inr (d', replicate (length es) Exact)" and
    bw: "applyEdits d' (inverseEdits es) = Inr (?d1, replicate (length es) Exact)"
    by blast
  have step: "applyEdit d e = Inr (Exact, ?d1)"
    using inc by (rule applyEdit_exact)
  have inc': "includes_str ?d1 (normalizeLineEndings (oldText (swapEdit e)))"
    using same pos by (simp add: includes_str_def swapEdit_def)
  have "replace ?d1 ?nw ?ol = d"
    using pos nd od same by (intro replace_inverse) simp_all
  then have back1: "applyEdit ?d1 (swapEdit e) = Inr (Exact, d)"
    using applyEdit_exact [OF inc'] by (simp add: swapEdit_def)
  have "applyEdits d (e # es) = Inr (d', replicate (length (e # es)) Exact)"
    using step fw by simp
  moreover have "applyEdits d' (inverseEdits (e # es)) = Inr (d, replicate (length (e # es)) Exact)"
    using bw back1
    by (simp add: inverseEdits_def applyEdits_append replicate_append_same)
  ultimately show ?case by blast
qed

text \<open>
  Claim C7, as the code has it. Let the edits be free of dollar signs and restorable from
  the file's normalized text, and let the text they write hold no CR LF pair. Then
  applying the inverse edits to the file written by the first call succeeds and writes
  back the normalized text the first call started from.
\<close>

theorem round_trip_when_restorable:
  assumes "st filePath = Some raw"
      and "dollar_free edits"
      and "restorable (normalizeLineEndings raw) edits"
      and "applyFileEdits st filePath edits False = (Inr c1, st1)"
      and "normalizeLineEndings c1 = c1"
  shows "applyFileEdits st1 filePath (inverseEdits edits) False
           = (Inr (normalizeLineEndings raw), st1(filePath \<mapsto> normalizeLineEndings raw))"
proof -
  from applyEdits_restorable [OF assms(2,3)] obtain d' where
    fw: "applyEdits (normalizeLineEndings raw) edits = Inr (d', replicate (length edits) Exact)" and
    bw: "applyEdits d' (inverseEdits edits) = Inr (normalizeLineEndings raw, replicate (length edits) Exact)"
    by blast
  from assms(1,4) fw have c1: "c1 = d'" and st1: "st1 = st(filePath \<mapsto> d')"
    by (auto simp: applyFileEdits_def Let_def)
  from st1 have "st1 filePath = Some d'" by simp
  with bw assms(5) c1 show ?thesis
    by (simp add: applyFileEdits_def Let_def)
qed

theorem round_trip_when_restorable_witness:
  "dollar_free assignment_edits
   \<and> restorable (normalizeLineEndings (''x = 1;'' @ [CR, LF] @ ''y = 2;'')) assignment_edits
   \<and> fst (applyFileEdits assignment_file ''/f'' assignment_edits False)
       = Inr (join_with LF [''x = 10;'', ''y = 20;'', ''z = 3;''])
   \<and> fst (applyFileEdits (snd (applyFileEdits assignment_file ''/f'' assignment_edits False)) ''/f''
            (inverseEdits assignment_edits) False)
       = Inr (join_with LF [''x = 1;'', ''y = 2;''])"
proof -
  let ?raw = "''x = 1;'' @ [CR, LF] @ ''y = 2;''"
  let ?c1 = "join_with LF [''x = 10;'', ''y = 20;'', ''z = 3;'']"
  let ?st1 = "snd (applyFileEdits assignment_file ''/f'' assignment_edits False)"
  have h1: "assignment_file ''/f'' = Some ?raw"
    by (simp add: assignment_file_def)
  have h2: "dollar_free assignment_edits"
    by code_simp
  have h3: "restorable (normalizeLineEndings ?raw) assignment_edits"
    by code_simp
  have f: "fst (applyFileEdits assignment_file ''/f'' assignment_edits False) = Inr ?c1"
    by code_simp
  then have h4: "applyFileEdits assignment_file ''/f'' assignment_edits False = (Inr ?c1, ?st1)"
    by (simp add: prod_eq_iff)
  have h5: "normalizeLineEndings ?c1 = ?c1"
    by code_simp
  have n: "normalizeLineEndings ?raw = join_with LF [''x = 1;'', ''y = 2;'']"
    by code_simp
  from round_trip_when_restorable
         [where st = assignment_file and filePath = "''/f''", OF h1 h2 h3 h4 h5] n h2 h3 f
  show ?thesis
    by simp
qed

text \<open>
  The round trip as the specification states it fails on \<^verbatim>\<open>ab\<close> with the edit from \<^verbatim>\<open>b\<close>
  to \<^verbatim>\<open>a\<close>: both runs use the exact tier, and the inverse edit replaces the first \<^verbatim>\<open>a\<close>,
  not the one the edit wrote.
\<close>

theorem round_trip_counterexample:
  "applyEdits (normalizeLineEndings ''ab'') [b_to_a] = Inr (''aa'', [Exact])
   \<and> applyEdits (normalizeLineEndings ''aa'') (inverseEdits [b_to_a]) = Inr (''ba'', [Exact])
   \<and> fst (applyFileEdits (snd (applyFileEdits ab_file ''/f'' [b_to_a] False)) ''/f''
            (inverseEdits [b_to_a]) False)
       = Inr ''ba''
   \<and> ''ba'' \<noteq> normalizeLineEndings ''ab''"
  by code_simp

end
